theory Spec2Isabelle
  imports Main "HOL-Library.Multiset"
begin

section \<open>The counter-based fan-in of the concurrency article\<close>

text \<open>
  The snippet under study (the last listing of \<^verbatim>\<open>node-patterns-concurrency\<close>):
  \<^verbatim>\<open>
  var j = 0
  var responses = {}
  for (var i = 1; i<=10; i++) {
    makeRequest(i, function(response) {
      j++
      console.log(response)
      responses[i] = (response)
      if (j == 10) processResponses(responses)
    })
  }
  \<close>
  The variables \<open>i\<close>, \<open>j\<close> and \<open>responses\<close> are declared with \<open>var\<close>: there is one
  of each, shared by the loop and by every callback. The state of the model holds them,
  together with what the snippet does to the outside: the calls of \<open>makeRequest\<close>
  (by their first argument), the lines given to \<open>console.log\<close>, and the calls of
  \<open>processResponses\<close> (by the contents of \<open>responses\<close> at the call).

  The literal \<open>10\<close> occurs twice, as the bound of the loop and as the value the counter
  is compared with. Both occurrences are the parameter \<open>n\<close> of the model; the snippet
  itself is the instance \<open>n = 10\<close>. The two counters are JavaScript numbers that only
  count up from 0 and 1; they are natural numbers here.
\<close>

type_synonym 'r result_set = "nat \<rightharpoonup> 'r"

record 'r fan_state =
  i :: nat
  j :: nat
  responses :: "'r result_set"
  requests :: "nat list"
  console :: "'r list"
  processed :: "'r result_set list"

text \<open>
  \<open>processResponses\<close> is not defined in the repository. It is a parameter: a function
  from the object it is given to \<open>None\<close> when it returns, or to \<open>Some e\<close> when it
  throws \<open>e\<close>.
\<close>

type_synonym ('r, 'e) handler = "'r result_set \<Rightarrow> 'e option"

definition returns :: "('r, 'e) handler" where
  "returns = (\<lambda>rs. None)"

definition throwing :: "'e \<Rightarrow> ('r, 'e) handler" where
  "throwing e = (\<lambda>rs. Some e)"

text \<open>
  The callback given to \<open>makeRequest\<close>. It reads \<open>i\<close> when it runs, not when it was
  created. Its result is the exception that leaves it, if any, and the state it leaves.
\<close>

definition request_callback ::
  "nat \<Rightarrow> ('r, 'e) handler \<Rightarrow> 'r \<Rightarrow> 'r fan_state \<Rightarrow> 'e option \<times> 'r fan_state" where
  "request_callback n processResponses response s =
     (let s1 = s\<lparr>j := j s + 1\<rparr>;
          s2 = s1\<lparr>console := console s1 @ [response]\<rparr>;
          s3 = s2\<lparr>responses := (responses s2)(i s2 \<mapsto> response)\<rparr>
      in if j s3 = n
         then (processResponses (responses s3),
               s3\<lparr>processed := processed s3 @ [responses s3]\<rparr>)
         else (None, s3))"

text \<open>
  The loop \<open>for (var i = 1; i<=n; i++) makeRequest(i, callback)\<close>, from the state in
  which \<open>i\<close> has been initialised. \<open>makeRequest\<close> is asynchronous ("async, that's why
  callback"): it starts the request and returns, and the callback runs in a later turn of
  the event loop, after the loop has finished.
\<close>

function for_loop :: "nat \<Rightarrow> 'r fan_state \<Rightarrow> 'r fan_state" where
  "for_loop n s =
     (if i s \<le> n
      then for_loop n (s\<lparr>requests := requests s @ [i s], i := i s + 1\<rparr>)
      else s)"
  by pat_completeness auto
termination
  by (relation "measure (\<lambda>(n, s). Suc n - i s)") auto

declare for_loop.simps [simp del]

definition fan_in_start :: "nat \<Rightarrow> 'r fan_state" where
  "fan_in_start n =
     for_loop n \<lparr>i = 1, j = 0, responses = Map.empty, requests = [],
                 console = [], processed = []\<rparr>"

text \<open>
  A report \<open>(k, r)\<close> says that the request started with argument \<open>k\<close> calls its callback
  with response \<open>r\<close>. Every request was given the same function, closed over the same
  variables, so the callback does not know \<open>k\<close>. Only a request that the loop has
  started has a callback to call: the reports of a run name requests of \<open>requests\<close>.

  Each report is a turn of the event loop of its own. Nothing in the snippet catches an
  exception that leaves a callback: it reaches the top level and ends the process (of a
  \<open>throw\<close> in an asynchronous callback the article says "The script will crash"), and
  the reports that would have followed are not delivered. \<open>deliver\<close> gives the state in
  which the run ends, after the last report or after the callback that threw.
\<close>

type_synonym 'r report = "nat \<times> 'r"

fun deliver ::
  "nat \<Rightarrow> ('r, 'e) handler \<Rightarrow> 'r report list \<Rightarrow> 'r fan_state \<Rightarrow> 'r fan_state" where
  "deliver n h [] s = s"
| "deliver n h ((k, r) # es) s =
     (case request_callback n h r s of
        (None, s') \<Rightarrow> deliver n h es s'
      | (Some e, s') \<Rightarrow> s')"

definition fan_in :: "nat \<Rightarrow> ('r, 'e) handler \<Rightarrow> 'r report list \<Rightarrow> 'r fan_state" where
  "fan_in n h es = deliver n h es (fan_in_start n)"

section \<open>getCustomers\<close>

text \<open>
  \<^verbatim>\<open>getCustomers\<close> is listed twice in the article: with the error checks written
  out (\<^verbatim>\<open>file-read.js\<close>) and with the \<^verbatim>\<open>okay\<close> module
  (\<^verbatim>\<open>file-read-with-okay.js\<close>). Both are modelled. The file system decides three
  things for a call: what \<open>fs.stat\<close>, \<open>fs.readFile\<close> and \<open>fs.writeFile\<close> report.
  These are the input of the model; the file may change between the calls, so the three
  are independent. An \<open>Error\<close> object is its message.
\<close>

type_synonym error = string

datatype js_exception = TypeError

record stats =
  isFile :: bool

record fs =
  stat :: "string \<Rightarrow> error + stats"
  readFile :: "string \<Rightarrow> error + string"
  writeFile :: "string \<Rightarrow> string \<Rightarrow> error option"

text \<open>
  The object built for a line of the file. A property that was assigned \<open>undefined\<close> is
  \<open>None\<close>.
\<close>

record customer =
  id_prop :: "string option"
  first_name :: "string option"

text \<open>
  What a call does to the outside, in order: the calls of the caller's \<open>callback\<close> with
  their two arguments (\<open>null\<close> and \<open>undefined\<close> are \<open>None\<close>), the lines on the console,
  the file written. One call of \<open>getCustomers\<close> is modelled at a time: \<open>customers\<close>,
  \<open>customerArray\<close> and \<open>customersJSON\<close> are assigned without \<open>var\<close> and would be
  shared by calls that overlap. The outcome of a call is this trace and the exception that ended it,
  if any. The caller's callback is recorded only: what it does is the caller's, and it is
  taken to return.
\<close>

datatype event =
    Callback "error option" "string option"
  | ConsoleLog "customer list"
  | ConsoleError string
  | FileWritten string string

type_synonym outcome = "event list \<times> js_exception option"

definition finished :: outcome where
  "finished = ([], None)"

definition throw :: "js_exception \<Rightarrow> outcome" where
  "throw x = ([], Some x)"

definition emit :: "event \<Rightarrow> outcome \<Rightarrow> outcome" where
  "emit e rest = (e # fst rest, snd rest)"

definition callback :: "error option \<Rightarrow> string option \<Rightarrow> outcome" where
  "callback err data = emit (Callback err data) finished"

definition console_log :: "customer list \<Rightarrow> outcome \<Rightarrow> outcome" where
  "console_log v rest = emit (ConsoleLog v) rest"

definition console_error :: "string \<Rightarrow> outcome \<Rightarrow> outcome" where
  "console_error v rest = emit (ConsoleError v) rest"

definition callback_calls :: "outcome \<Rightarrow> (error option \<times> string option) list" where
  "callback_calls out =
     concat (map (\<lambda>e. case e of Callback err data \<Rightarrow> [(err, data)] | _ \<Rightarrow> []) (fst out))"

text \<open>
  The three functions of \<open>fs\<close>, each calling the function it is given with the error
  (or \<open>null\<close>) first and the result (or \<open>undefined\<close>) second.
\<close>

definition fs_stat ::
  "fs \<Rightarrow> string \<Rightarrow> (error option \<Rightarrow> stats option \<Rightarrow> outcome) \<Rightarrow> outcome" where
  "fs_stat env path cb =
     (case stat env path of Inl e \<Rightarrow> cb (Some e) None | Inr st \<Rightarrow> cb None (Some st))"

definition fs_readFile ::
  "fs \<Rightarrow> string \<Rightarrow> (error option \<Rightarrow> string option \<Rightarrow> outcome) \<Rightarrow> outcome" where
  "fs_readFile env path cb =
     (case readFile env path of Inl e \<Rightarrow> cb (Some e) None | Inr d \<Rightarrow> cb None (Some d))"

definition fs_writeFile ::
  "fs \<Rightarrow> string \<Rightarrow> string \<Rightarrow> (error option \<Rightarrow> unit option \<Rightarrow> outcome) \<Rightarrow> outcome" where
  "fs_writeFile env path d cb =
     (case writeFile env path d of
        Some e \<Rightarrow> cb (Some e) None
      | None \<Rightarrow> emit (FileWritten path d) (cb None None))"

text \<open>
  \<open>okay\<close> is a module of npm, not code of the repository. It is modelled as the
  article describes it: \<open>okay(callback, f)\<close> does the check
  \<open>if (error) return callback(error)\<close> and calls \<open>f\<close> with the remaining arguments
  otherwise.
\<close>

definition okay ::
  "(error option \<Rightarrow> string option \<Rightarrow> outcome) \<Rightarrow> ('a option \<Rightarrow> outcome)
   \<Rightarrow> error option \<Rightarrow> 'a option \<Rightarrow> outcome" where
  "okay cb f err arg = (case err of Some e \<Rightarrow> cb (Some e) None | None \<Rightarrow> f arg)"

subsection \<open>The built-in functions the body uses\<close>

definition LF :: char where
  "LF = CHR 0x0A"

text \<open>\<open>str.split(sep)\<close> for a separator of one character.\<close>

fun str_split :: "char \<Rightarrow> string \<Rightarrow> string list" where
  "str_split sep [] = [[]]"
| "str_split sep (c # cs) =
     (if c = sep then [] # str_split sep cs
      else (case str_split sep cs of
              [] \<Rightarrow> [[c]]
            | w # ws \<Rightarrow> (c # w) # ws))"

text \<open>\<open>xs[k]\<close> on an array: \<open>undefined\<close> beyond its length.\<close>

definition element :: "'a list \<Rightarrow> nat \<Rightarrow> 'a option" where
  "element xs k = (if k < length xs then Some (xs ! k) else None)"

text \<open>
  \<open>JSON.stringify(customers, 0, 4)\<close> on an array of such objects. The replacer \<open>0\<close> is
  neither a function nor an array and is ignored. The gap is \<open>min(10, space)\<close> spaces.
  A property whose value is \<open>undefined\<close> is left out. A string is quoted with the
  escapes of JSON: the short ones, and \<open>\u00XX\<close> for the other characters below
  \<open>0x20\<close>.
\<close>

definition hex_digit :: "nat \<Rightarrow> char" where
  "hex_digit d = ''0123456789abcdef'' ! d"

definition quote_char :: "char \<Rightarrow> string" where
  "quote_char c =
     (if c = CHR 0x08 then [CHR 0x5C, CHR ''b'']
      else if c = CHR 0x09 then [CHR 0x5C, CHR ''t'']
      else if c = CHR 0x0A then [CHR 0x5C, CHR ''n'']
      else if c = CHR 0x0C then [CHR 0x5C, CHR ''f'']
      else if c = CHR 0x0D then [CHR 0x5C, CHR ''r'']
      else if c = CHR 0x22 then [CHR 0x5C, CHR 0x22]
      else if c = CHR 0x5C then [CHR 0x5C, CHR 0x5C]
      else if (of_char c :: nat) < 0x20
        then [CHR 0x5C, CHR ''u'', CHR ''0'', CHR ''0'',
              hex_digit (of_char c div 16), hex_digit (of_char c mod 16)]
      else [c])"

definition quote :: "string \<Rightarrow> string" where
  "quote str = [CHR 0x22] @ concat (map quote_char str) @ [CHR 0x22]"

fun join :: "string \<Rightarrow> string list \<Rightarrow> string" where
  "join sep [] = []"
| "join sep [x] = x"
| "join sep (x # y # ys) = x @ sep @ join sep (y # ys)"

definition gap_of :: "nat \<Rightarrow> string" where
  "gap_of space = replicate (min 10 space) CHR '' ''"

definition serialize_property :: "string \<Rightarrow> string \<Rightarrow> string option \<Rightarrow> string list" where
  "serialize_property gap key v =
     (case v of
        None \<Rightarrow> []
      | Some str \<Rightarrow> [quote key @ '':'' @ (if gap = [] then [] else '' '') @ quote str])"

definition serialize_object :: "string \<Rightarrow> string \<Rightarrow> string list \<Rightarrow> string" where
  "serialize_object stepback gap partial =
     (if partial = [] then ''{}''
      else if gap = [] then ''{'' @ join '','' partial @ ''}''
      else (let indent = stepback @ gap
            in ''{'' @ [LF] @ indent @ join ('','' @ [LF] @ indent) partial
               @ [LF] @ stepback @ ''}''))"

definition serialize_array :: "string \<Rightarrow> string \<Rightarrow> string list \<Rightarrow> string" where
  "serialize_array stepback gap partial =
     (if partial = [] then ''[]''
      else if gap = [] then ''['' @ join '','' partial @ '']''
      else (let indent = stepback @ gap
            in ''['' @ [LF] @ indent @ join ('','' @ [LF] @ indent) partial
               @ [LF] @ stepback @ '']''))"

definition JSON_stringify :: "customer list \<Rightarrow> nat \<Rightarrow> string" where
  "JSON_stringify customers space =
     (let gap = gap_of space
      in serialize_array [] gap
           (map (\<lambda>c. serialize_object gap gap
                   (serialize_property gap ''id'' (id_prop c)
                    @ serialize_property gap ''first_name'' (first_name c)))
              customers))"

subsection \<open>The two listings\<close>

definition inputFile :: string where
  "inputFile = ''./customers.csv''"

text \<open>The function given to \<open>map\<close>.\<close>

definition customer_of_line :: "string \<Rightarrow> customer" where
  "customer_of_line customerLine =
     (let customerArray = str_split CHR '','' customerLine
      in \<lparr>id_prop = element customerArray 0, first_name = element customerArray 1\<rparr>)"

text \<open>
  \<^verbatim>\<open>file-read.js\<close>: the checks written out. A method call on \<open>undefined\<close>
  (\<open>stats.isFile()\<close>, \<open>customersCSV.split\<close>) throws a \<open>TypeError\<close>.
\<close>

definition getCustomers :: "fs \<Rightarrow> outcome" where
  "getCustomers env =
     fs_stat env inputFile (\<lambda>error stats.
       case stats of
         None \<Rightarrow> throw TypeError
       | Some st \<Rightarrow>
           if isFile st then
             fs_readFile env inputFile (\<lambda>error customersCSV.
               case error of
                 Some e \<Rightarrow> callback (Some e) None
               | None \<Rightarrow>
                   (case customersCSV of
                      None \<Rightarrow> throw TypeError
                    | Some csv \<Rightarrow>
                        (let customers = map customer_of_line (str_split LF csv)
                         in console_log customers
                              (let customersJSON = JSON_stringify customers 4
                               in fs_writeFile env ''./customers.json'' customersJSON
                                    (\<lambda>error u.
                                       case error of
                                         Some e \<Rightarrow> callback (Some e) None
                                       | None \<Rightarrow> callback None (Some customersJSON))))))
           else console_error ''The input CSV file is not found'' finished)"

text \<open>\<^verbatim>\<open>file-read-with-okay.js\<close>: the checks left to \<open>okay\<close>.\<close>

definition getCustomers_okay :: "fs \<Rightarrow> outcome" where
  "getCustomers_okay env =
     fs_stat env inputFile (\<lambda>error stats.
       case stats of
         None \<Rightarrow> throw TypeError
       | Some st \<Rightarrow>
           if isFile st then
             fs_readFile env inputFile (okay callback (\<lambda>customersCSV.
               case customersCSV of
                 None \<Rightarrow> throw TypeError
               | Some csv \<Rightarrow>
                   (let customers = map customer_of_line (str_split LF csv)
                    in console_log customers
                         (let customersJSON = JSON_stringify customers 4
                          in fs_writeFile env ''./customers.json'' customersJSON
                               (okay callback (\<lambda>u.
                                  callback None (Some customersJSON)))))))
           else console_error ''The input CSV file is not found'' finished)"

text \<open>
  The array of C9 in the claim's own words: the content is split on newline, and a line
  gives an object whose \<open>id\<close> is the first comma-separated field of the line and whose
  \<open>first_name\<close> is the second (which a line without a comma does not have).
\<close>

definition first_field :: "string \<Rightarrow> string" where
  "first_field line = takeWhile (\<lambda>c. c \<noteq> CHR '','') line"

definition second_field :: "string \<Rightarrow> string option" where
  "second_field line =
     (if CHR '','' \<in> set line
      then Some (first_field (tl (dropWhile (\<lambda>c. c \<noteq> CHR '','') line)))
      else None)"

definition customers_of_content :: "string \<Rightarrow> customer list" where
  "customers_of_content s =
     map (\<lambda>line. \<lparr>id_prop = Some (first_field line), first_name = second_field line\<rparr>)
       (str_split LF s)"

text \<open>File systems to evaluate the listings on.\<close>

definition fs_with_file :: "string \<Rightarrow> fs" where
  "fs_with_file content =
     \<lparr>stat = (\<lambda>path. Inr \<lparr>isFile = True\<rparr>),
      readFile = (\<lambda>path. Inr content),
      writeFile = (\<lambda>path d. None)\<rparr>"

definition fs_with_directory :: fs where
  "fs_with_directory =
     \<lparr>stat = (\<lambda>path. Inr \<lparr>isFile = False\<rparr>),
      readFile = (\<lambda>path. Inl ''EISDIR: illegal operation on a directory, read''),
      writeFile = (\<lambda>path d. None)\<rparr>"

definition fs_without_file :: fs where
  "fs_without_file =
     \<lparr>stat = (\<lambda>path. Inl ''ENOENT: no such file or directory, stat''),
      readFile = (\<lambda>path. Inl ''ENOENT: no such file or directory, open''),
      writeFile = (\<lambda>path d. None)\<rparr>"

section \<open>Facts about the loop and the callback\<close>

lemma for_loop_unfold:
  "i s \<le> Suc n \<Longrightarrow>
   for_loop n s = s\<lparr>requests := requests s @ [i s..<Suc n], i := Suc n\<rparr>"
proof (induction n s rule: for_loop.induct)
  case (1 n s)
  show ?case
  proof (cases "i s \<le> n")
    case True
    then have "for_loop n s = for_loop n (s\<lparr>requests := requests s @ [i s], i := i s + 1\<rparr>)"
      by (subst for_loop.simps) simp
    also have "\<dots> = s\<lparr>requests := (requests s @ [i s]) @ [Suc (i s)..<Suc n], i := Suc n\<rparr>"
      using True "1.IH" by simp
    also have "(requests s @ [i s]) @ [Suc (i s)..<Suc n] = requests s @ [i s..<Suc n]"
      using True by (simp add: upt_conv_Cons)
    finally show ?thesis .
  next
    case False
    with "1.prems" have eq: "i s = Suc n" by simp
    have "for_loop n s = s"
      using False by (subst for_loop.simps) simp
    then show ?thesis using eq by simp
  qed
qed

lemma fan_in_start_eq:
  "fan_in_start n =
     \<lparr>i = Suc n, j = 0, responses = Map.empty, requests = [1..<Suc n],
      console = [], processed = []\<rparr>"
  unfolding fan_in_start_def by (subst for_loop_unfold) simp_all

lemma callback_state:
  "snd (request_callback n h r s) =
     s\<lparr>j := Suc (j s), responses := (responses s)(i s \<mapsto> r),
       console := console s @ [r],
       processed := processed s @
         (if Suc (j s) = n then [(responses s)(i s \<mapsto> r)] else [])\<rparr>"
  by (simp add: request_callback_def Let_def)

lemma callback_exception:
  "fst (request_callback n h r s) =
     (if Suc (j s) = n then h ((responses s)(i s \<mapsto> r)) else None)"
  by (simp add: request_callback_def Let_def)

lemma deliver_Cons:
  "deliver n h ((k, r) # es) s =
     (if fst (request_callback n h r s) = None
      then deliver n h es (snd (request_callback n h r s))
      else snd (request_callback n h r s))"
  by (simp split: prod.splits option.splits)

lemma deliver_i: "i (deliver n h es s) = i s"
proof (induction es arbitrary: s)
  case Nil
  then show ?case by simp
next
  case (Cons e es)
  obtain k r where e: "e = (k, r)" by (cases e)
  show ?case
    unfolding e deliver_Cons using Cons.IH by (simp add: callback_state)
qed

lemma deliver_requests: "requests (deliver n h es s) = requests s"
proof (induction es arbitrary: s)
  case Nil
  then show ?case by simp
next
  case (Cons e es)
  obtain k r where e: "e = (k, r)" by (cases e)
  show ?case
    unfolding e deliver_Cons using Cons.IH by (simp add: callback_state)
qed

text \<open>As long as no exception leaves a callback, every report is delivered.\<close>

lemma deliver_all:
  assumes "j s + length es < n \<or> (\<forall>rs. h rs = None)"
  shows "j (deliver n h es s) = j s + length es
         \<and> responses (deliver n h es s) =
             (if es = [] then responses s else (responses s)(i s \<mapsto> snd (last es)))
         \<and> console (deliver n h es s) = console s @ map snd es"
  using assms
proof (induction es arbitrary: s)
  case Nil
  then show ?case by simp
next
  case (Cons e es)
  obtain k r where e: "e = (k, r)" by (cases e)
  let ?s = "snd (request_callback n h r s)"
  have quiet: "fst (request_callback n h r s) = None"
    using Cons.prems by (auto simp: callback_exception)
  have step: "deliver n h (e # es) s = deliver n h es ?s"
    unfolding e deliver_Cons using quiet by simp
  have js: "j ?s = Suc (j s)" and i_s: "i ?s = i s"
    and rs: "responses ?s = (responses s)(i s \<mapsto> r)"
    and cs: "console ?s = console s @ [r]"
    by (simp_all add: callback_state)
  have "j ?s + length es < n \<or> (\<forall>rs. h rs = None)"
    using Cons.prems by (auto simp: js)
  from Cons.IH [OF this] have
    ihj: "j (deliver n h es ?s) = j ?s + length es" and
    ihr: "responses (deliver n h es ?s) =
            (if es = [] then responses ?s else (responses ?s)(i ?s \<mapsto> snd (last es)))" and
    ihc: "console (deliver n h es ?s) = console ?s @ map snd es"
    by blast+
  show ?case
  proof (intro conjI)
    show "j (deliver n h (e # es) s) = j s + length (e # es)"
      by (simp only: step ihj js) simp
    show "console (deliver n h (e # es) s) = console s @ map snd (e # es)"
      by (simp only: step ihc cs) (simp add: e)
    show "responses (deliver n h (e # es) s) =
            (if e # es = [] then responses s
             else (responses s)(i s \<mapsto> snd (last (e # es))))"
    proof -
      have r1: "responses (deliver n h (e # es) s) =
              (if es = [] then (responses s)(i s \<mapsto> r)
               else ((responses s)(i s \<mapsto> r))(i s \<mapsto> snd (last es)))"
        by (simp only: step ihr rs i_s)
      have r2: "snd (last (e # es)) = (if es = [] then r else snd (last es))"
        by (simp add: e)
      show ?thesis
        unfolding r1 r2 by simp
    qed
  qed
qed

lemma deliver_processed:
  "processed (deliver n h es s) =
     processed s @
       (if j s < n \<and> n \<le> j s + length es
        then [(responses s)(i s \<mapsto> snd (es ! (n - j s - 1)))] else [])"
proof (induction es arbitrary: s)
  case Nil
  then show ?case by simp
next
  case (Cons e es)
  obtain k r where e: "e = (k, r)" by (cases e)
  let ?s = "snd (request_callback n h r s)"
  have js: "j ?s = Suc (j s)" and i_s: "i ?s = i s"
    and rs: "responses ?s = (responses s)(i s \<mapsto> r)"
    and ps: "processed ?s = processed s @
         (if Suc (j s) = n then [(responses s)(i s \<mapsto> r)] else [])"
    by (simp_all add: callback_state)
  have ih: "processed (deliver n h es ?s) =
     processed ?s @
       (if Suc (j s) < n \<and> n \<le> Suc (j s) + length es
        then [(responses s)(i s \<mapsto> snd (es ! (n - Suc (j s) - 1)))] else [])"
    using Cons.IH [of ?s] by (simp only: js i_s rs fun_upd_upd)
  consider (now) "Suc (j s) = n" | (later) "Suc (j s) < n" | (past) "n \<le> j s"
    by linarith
  then show ?case
  proof cases
    case now
    then have "processed (deliver n h es ?s) = processed ?s"
      unfolding ih by simp
    then have step: "processed (deliver n h (e # es) s) = processed ?s"
      unfolding e deliver_Cons by simp
    have "n - j s - 1 = 0" using now by simp
    then show ?thesis
      unfolding step ps using now by (simp add: e)
  next
    case later
    then have "fst (request_callback n h r s) = None"
      by (simp add: callback_exception)
    then have step: "processed (deliver n h (e # es) s) = processed (deliver n h es ?s)"
      unfolding e deliver_Cons by simp
    have "n - j s - 1 = Suc (n - Suc (j s) - 1)" using later by simp
    then have "(e # es) ! (n - j s - 1) = es ! (n - Suc (j s) - 1)"
      by (simp only: nth_Cons_Suc)
    moreover have "j s < n" "Suc (j s) \<noteq> n" using later by simp_all
    moreover have "(n \<le> j s + length (e # es)) = (n \<le> Suc (j s) + length es)" by simp
    ultimately show ?thesis
      unfolding step ih ps using later by (simp only: if_True if_False append_Nil2 simp_thms)
  next
    case past
    then have "fst (request_callback n h r s) = None"
      by (simp add: callback_exception)
    then have step: "processed (deliver n h (e # es) s) = processed (deliver n h es ?s)"
      unfolding e deliver_Cons by simp
    from past have "\<not> j s < n" "\<not> Suc (j s) < n" "Suc (j s) \<noteq> n" by simp_all
    then show ?thesis
      unfolding step ih ps by (simp only: if_False simp_thms append_Nil2)
  qed
qed

lemma fan_in_processed:
  "processed (fan_in n h es) =
     (if 0 < n \<and> n \<le> length es then [[Suc n \<mapsto> snd (es ! (n - 1))]] else [])"
  by (simp add: fan_in_def deliver_processed fan_in_start_eq)

lemma fan_in_j:
  "length es < n \<or> (\<forall>rs. h rs = None) \<Longrightarrow> j (fan_in n h es) = length es"
  using deliver_all [of "fan_in_start n" es n h]
  by (simp add: fan_in_def fan_in_start_eq)

lemma fan_in_i: "i (fan_in n h es) = Suc n"
  by (simp add: fan_in_def deliver_i fan_in_start_eq)

lemma fan_in_requests: "requests (fan_in n h es) = [1..<Suc n]"
  by (simp add: fan_in_def deliver_requests fan_in_start_eq)

lemma fan_in_responses:
  "length es < n \<or> (\<forall>rs. h rs = None) \<Longrightarrow>
   responses (fan_in n h es) = (if es = [] then Map.empty else [Suc n \<mapsto> snd (last es)])"
  using deliver_all [of "fan_in_start n" es n h]
  by (simp add: fan_in_def fan_in_start_eq)

lemma returns_quiet: "\<forall>rs. (returns :: ('r, 'e) handler) rs = None"
  by (simp add: returns_def)

lemma upt_1_to_10: "[1..<Suc 10] = [1, 2, 3, 4, 5, 6, 7, 8, 9, 10]"
  by code_simp

lemma requests_ten:
  "requests (fan_in_start 10) = [1, 2, 3, 4, 5, 6, 7, 8, 9, 10]"
  unfolding fan_in_start_eq by (simp only: fan_state.select_convs upt_1_to_10)

section \<open>Facts about getCustomers\<close>

lemma str_split_unfold:
  "str_split sep s =
     takeWhile (\<lambda>c. c \<noteq> sep) s #
       (if sep \<in> set s then str_split sep (tl (dropWhile (\<lambda>c. c \<noteq> sep) s)) else [])"
  by (induction s) (auto split: list.splits)

lemma element_first: "element (x # xs) 0 = Some x"
  by (simp add: element_def)

lemma element_second:
  "element (x # xs) (Suc 0) = (case xs of [] \<Rightarrow> None | y # ys \<Rightarrow> Some y)"
  by (simp add: element_def split: list.splits)

lemma customer_of_line_fields:
  "customer_of_line line = \<lparr>id_prop = Some (first_field line), first_name = second_field line\<rparr>"
proof -
  let ?rest = "tl (dropWhile (\<lambda>c. c \<noteq> CHR '','') line)"
  have a: "str_split CHR '','' line =
      first_field line # (if CHR '','' \<in> set line then str_split CHR '','' ?rest else [])"
    unfolding first_field_def by (rule str_split_unfold)
  have b: "str_split CHR '','' ?rest = first_field ?rest #
      (if CHR '','' \<in> set ?rest then str_split CHR '','' (tl (dropWhile (\<lambda>c. c \<noteq> CHR '','') ?rest)) else [])"
    unfolding first_field_def by (rule str_split_unfold)
  show ?thesis
  proof (cases "CHR '','' \<in> set line")
    case True
    then show ?thesis
      unfolding customer_of_line_def Let_def second_field_def
      by (subst (1 2) a) (simp add: element_first element_second b)
  next
    case False
    then show ?thesis
      unfolding customer_of_line_def Let_def second_field_def
      by (subst (1 2) a) (simp add: element_first element_second)
  qed
qed

lemma customers_of_content_eq:
  "map customer_of_line (str_split LF s) = customers_of_content s"
  by (simp add: customers_of_content_def customer_of_line_fields)

lemma getCustomers_okay_eq: "getCustomers_okay env = getCustomers env"
  unfolding getCustomers_okay_def getCustomers_def fs_stat_def fs_readFile_def
    fs_writeFile_def okay_def console_log_def Let_def
  by (simp split: sum.splits option.splits)

lemma getCustomers_cases:
  "getCustomers env =
     (case stat env inputFile of
        Inl e \<Rightarrow> ([], Some TypeError)
      | Inr st \<Rightarrow>
          if isFile st then
            (case readFile env inputFile of
               Inl e \<Rightarrow> ([Callback (Some e) None], None)
             | Inr s \<Rightarrow>
                 (case writeFile env ''./customers.json''
                         (JSON_stringify (customers_of_content s) 4) of
                    Some e \<Rightarrow> ([ConsoleLog (customers_of_content s), Callback (Some e) None], None)
                  | None \<Rightarrow>
                      ([ConsoleLog (customers_of_content s),
                        FileWritten ''./customers.json''
                          (JSON_stringify (customers_of_content s) 4),
                        Callback None (Some (JSON_stringify (customers_of_content s) 4))],
                       None)))
          else ([ConsoleError ''The input CSV file is not found''], None))"
  unfolding getCustomers_def fs_stat_def fs_readFile_def
    fs_writeFile_def console_log_def console_error_def callback_def emit_def finished_def
    throw_def Let_def customers_of_content_eq
  by (simp split: sum.splits option.splits)

lemma json_example:
  \<open>JSON_stringify (customers_of_content ''1,Ann\<newline>2,Bob,x\<newline>'') 4 =
   ''[\<newline>    {\<newline>        "id": "1",\<newline>        "first_name": "Ann"\<newline>    },\<newline>    {\<newline>        "id": "2",\<newline>        "first_name": "Bob"\<newline>    },\<newline>    {\<newline>        "id": ""\<newline>    }\<newline>]''\<close>
  by code_simp

section \<open>The completion handler of the fan-in\<close>

text \<open>
  C1. The number of tasks of the snippet is the literal 10: the loop starts the ten
  requests 1 to 10, whatever follows. When each of the ten reports exactly once, in
  whichever order, the handler is called exactly once, by the callback of the last report
  and not before, whether the handler returns or throws.
\<close>

theorem handler_exactly_once:
  assumes "mset (map fst es) = mset (requests (fan_in_start 10 :: 'r fan_state))"
  shows "length (requests (fan_in 10 h (es :: 'r report list))) = 10
         \<and> length (processed (fan_in 10 h es)) = 1
         \<and> processed (fan_in 10 h (butlast es)) = []"
proof -
  have "size (mset (map fst es)) = size (mset [1..<Suc 10])"
    using assms by (simp add: fan_in_start_eq)
  then have len: "length es = 10" by simp
  then have "length (butlast es) < 10" by simp
  then show ?thesis using len by (simp add: fan_in_processed fan_in_requests)
qed

theorem handler_exactly_once_witness:
  "mset (map fst [(3, ''c''), (1, ''a''), (2, ''b''), (10, ''j''), (4, ''d''),
                   (9, ''i''), (5, ''e''), (8, ''h''), (6, ''f''), (7, ''g'')])
       = mset (requests (fan_in_start 10 :: string fan_state))
   \<and> length (processed (fan_in 10 (returns :: (string, unit) handler)
        [(3, ''c''), (1, ''a''), (2, ''b''), (10, ''j''), (4, ''d''),
         (9, ''i''), (5, ''e''), (8, ''h''), (6, ''f''), (7, ''g'')])) = 1
   \<and> length (processed (fan_in 10 (throwing ''boom'' :: (string, string) handler)
        [(3, ''c''), (1, ''a''), (2, ''b''), (10, ''j''), (4, ''d''),
         (9, ''i''), (5, ''e''), (8, ''h''), (6, ''f''), (7, ''g'')])) = 1"
proof -
  have b: "mset (map fst [(3, ''c''), (1, ''a''), (2, ''b''), (10, ''j''), (4, ''d''),
                       (9, ''i''), (5, ''e''), (8, ''h''), (6, ''f''), (7, ''g'')])
       = mset (requests (fan_in_start 10 :: string fan_state))"
    by (simp add: requests_ten)
  show ?thesis
    using b handler_exactly_once [OF b, of "returns :: (string, unit) handler"]
      handler_exactly_once [OF b, of "throwing ''boom'' :: (string, string) handler"]
    by blast
qed

text \<open>
  C2 (as amended). The snippet has nothing that recognises a task: a second report of a
  task runs the same callback as a first report of another. When a task that has
  reported reports again, the extra report is counted (with a handler that returns, so
  that the run goes on). What remains of the claim is that the handler is not called a
  second time: the counter only grows, so it equals \<open>n\<close> after one report at most.
\<close>

theorem every_report_counted:
  assumes "set (map fst es) \<subseteq> set (requests (fan_in_start n :: 'r fan_state))"
    and "k \<in> set (map fst es)"
  shows "j (fan_in n (returns :: ('r, 'e) handler) (es @ [(k, r)]))
           = Suc (j (fan_in n (returns :: ('r, 'e) handler) (es :: 'r report list)))
         \<and> length (processed (fan_in n (h :: ('r, 'e) handler) (es @ [(k, r)]))) \<le> 1"
  by (simp add: fan_in_j returns_quiet fan_in_processed)

theorem every_report_counted_witness:
  "set (map fst [(1, ''a''), (2, ''b'')]) \<subseteq> set (requests (fan_in_start 10 :: string fan_state))
   \<and> 1 \<in> set (map fst [(1::nat, ''a''), (2, ''b'')])
   \<and> j (fan_in 10 (returns :: (string, unit) handler) ([(1, ''a''), (2, ''b'')] @ [(1, ''a'')]))
       = Suc (j (fan_in 10 (returns :: (string, unit) handler) [(1, ''a''), (2, ''b'')]))
   \<and> length (processed (fan_in 10 (returns :: (string, unit) handler)
        ([(1, ''a''), (2, ''b'')] @ [(1, ''a'')]))) \<le> 1"
proof -
  have a: "set (map fst [(1, ''a''), (2, ''b'')])
             \<subseteq> set (requests (fan_in_start 10 :: string fan_state))"
    by (simp add: requests_ten)
  have b: "1 \<in> set (map fst [(1::nat, ''a''), (2, ''b'')])" by simp
  show ?thesis
    using a b every_report_counted [OF a b, of "''a''" "returns :: (string, unit) handler"]
    by blast
qed

text \<open>
  C2, counterexample. Task 1 reports twice. Its second report is counted, so that the
  counter reaches 10 and the handler runs when nine tasks only have reported; and it
  replaces what task 2 had recorded.
\<close>

theorem duplicate_ignored_counterexample:
  "j (fan_in 10 (returns :: (string, unit) handler) [(1, ''a''), (1, ''a'')]) = 2
   \<and> responses (fan_in 10 (returns :: (string, unit) handler) [(1, ''a''), (2, ''b'')])
       = [11 \<mapsto> ''b'']
   \<and> responses (fan_in 10 (returns :: (string, unit) handler)
         [(1, ''a''), (2, ''b''), (1, ''a'')]) = [11 \<mapsto> ''a'']
   \<and> processed (fan_in 10 (returns :: (string, unit) handler)
         [(1, ''a''), (1, ''a''), (2, ''b''), (3, ''c''), (4, ''d''), (5, ''e''),
          (6, ''f''), (7, ''g''), (8, ''h''), (9, ''i'')]) = [[11 \<mapsto> ''i'']]"
  by (simp add: fan_in_j fan_in_responses fan_in_processed returns_quiet)

text \<open>
  C3. Three tasks with keys 1, 2, 3 (the claim's a, b, c) and values 1, 2, 3 that report
  in the order 3, 1, 2: the handler is called once, with an object of one entry, under
  key 4, holding the value of the report that came last. The same for the ten tasks of
  the snippet: one entry under key 11. The callbacks run after the loop has left
  \<open>i\<close> at \<open>n + 1\<close>, and they all read that \<open>i\<close>.
\<close>

theorem result_set_three_tasks:
  "processed (fan_in 3 (returns :: (nat, unit) handler) [(3, 3), (1, 1), (2, 2)])
     = [[4 \<mapsto> 2]]
   \<and> [(4::nat) \<mapsto> 2] \<noteq> [1 \<mapsto> 1, 2 \<mapsto> 2, 3 \<mapsto> (3::nat)]
   \<and> processed (fan_in 10 (returns :: (nat, unit) handler)
         [(3, 3), (1, 1), (2, 2), (10, 10), (4, 4), (9, 9), (5, 5), (8, 8), (6, 6), (7, 7)])
     = [[11 \<mapsto> 7]]
   \<and> dom [11 \<mapsto> (7::nat)] = {11::nat}"
proof -
  have "[(4::nat) \<mapsto> 2] 1 \<noteq> [1 \<mapsto> 1, 2 \<mapsto> 2, 3 \<mapsto> (3::nat)] 1"
    by simp
  then have "[(4::nat) \<mapsto> 2] \<noteq> [1 \<mapsto> 1, 2 \<mapsto> 2, 3 \<mapsto> (3::nat)]"
    by metis
  then show ?thesis by (simp add: fan_in_processed)
qed

text \<open>
  C7. In the snippet itself (\<open>n = 10\<close>), task 1 reports "a" and then task 2 reports "b".
  Neither slot 1 nor slot 2 is written. Both reports write slot 11, and the report of task 2
  replaces what the report of task 1 had recorded.
\<close>

theorem completion_writes_shared_slot:
  "responses (fan_in 10 (returns :: (string, unit) handler) [(1, ''a'')]) = [11 \<mapsto> ''a'']
   \<and> responses (fan_in 10 (returns :: (string, unit) handler) [(1, ''a''), (2, ''b'')])
       = [11 \<mapsto> ''b'']
   \<and> responses (fan_in 10 (returns :: (string, unit) handler) [(1, ''a''), (2, ''b'')]) 1 = None
   \<and> responses (fan_in 10 (returns :: (string, unit) handler) [(1, ''a''), (2, ''b'')]) 2 = None"
  by (simp add: fan_in_responses returns_quiet)

text \<open>
  C8. The call \<open>processResponses(responses)\<close> stands in the callback with no
  \<open>try\<close> around it. When the handler throws \<open>e\<close> at the \<open>n\<close>-th report, the callback
  ends with that same \<open>e\<close>, after it has counted and stored the report.
\<close>

theorem handler_exception_leaves_callback:
  assumes "Suc (length es) = n" and "h [Suc n \<mapsto> r] = Some e"
  shows "fst (request_callback n h r (fan_in n h es)) = Some e
         \<and> j (snd (request_callback n h r (fan_in n h es))) = n
         \<and> responses (snd (request_callback n h r (fan_in n h es))) = [Suc n \<mapsto> r]"
proof -
  have before: "length es < n \<or> (\<forall>rs. h rs = None)"
    using assms(1) by simp
  have "(responses (fan_in n h es))(Suc n \<mapsto> r) = [Suc n \<mapsto> r]"
    by (simp add: fan_in_responses [OF before])
  then show ?thesis
    using assms by (simp add: request_callback_def Let_def fan_in_j [OF before] fan_in_i)
qed

theorem handler_exception_leaves_callback_witness:
  "Suc (length [(2::nat, ''b''), (1, ''a'')]) = 3
   \<and> (throwing ''boom'' :: (string, string) handler) [Suc 3 \<mapsto> ''c''] = Some ''boom''
   \<and> fst (request_callback 3 (throwing ''boom'') ''c''
          (fan_in 3 (throwing ''boom'') [(2, ''b''), (1, ''a'')])) = Some ''boom''"
proof -
  have a: "Suc (length [(2::nat, ''b''), (1, ''a'')]) = 3" by simp
  have b: "(throwing ''boom'' :: (string, string) handler) [Suc 3 \<mapsto> ''c''] = Some ''boom''"
    by (simp add: throwing_def)
  show ?thesis
    using a b handler_exception_leaves_callback
        [of "[(2::nat, ''b''), (1, ''a'')]" 3 "throwing ''boom''" "''c''" "''boom''"]
    by blast
qed

section \<open>The callback of getCustomers\<close>

text \<open>
  C6. The input file is a directory: \<open>fs.stat\<close> succeeds and \<open>stats.isFile()\<close> is
  false. Both listings print a line with \<open>console.error\<close> and end; the caller's callback
  is not called, with the failure or at all.
\<close>

theorem not_a_file_swallowed:
  "getCustomers fs_with_directory = ([ConsoleError ''The input CSV file is not found''], None)
   \<and> callback_calls (getCustomers fs_with_directory) = []
   \<and> getCustomers_okay fs_with_directory
       = ([ConsoleError ''The input CSV file is not found''], None)
   \<and> callback_calls (getCustomers_okay fs_with_directory) = []"
  by (simp add: getCustomers_okay_eq getCustomers_cases callback_calls_def fs_with_directory_def)

text \<open>
  C9. When \<open>fs.stat\<close> gives the stats of a regular file, \<open>fs.readFile\<close> gives the
  content \<open>s\<close> and \<open>fs.writeFile\<close> succeeds, both listings call the callback exactly
  once, with \<open>null\<close> and the JSON text, indented by 4, of the array that the claim
  describes, and nothing is thrown.
\<close>

theorem getCustomers_converts:
  assumes "stat env inputFile = Inr st" and "isFile st"
    and "readFile env inputFile = Inr s"
    and "writeFile env ''./customers.json'' (JSON_stringify (customers_of_content s) 4) = None"
  shows "callback_calls (getCustomers env)
           = [(None, Some (JSON_stringify (customers_of_content s) 4))]
         \<and> snd (getCustomers env) = None
         \<and> callback_calls (getCustomers_okay env)
           = [(None, Some (JSON_stringify (customers_of_content s) 4))]
         \<and> snd (getCustomers_okay env) = None"
  using assms by (simp add: getCustomers_okay_eq getCustomers_cases callback_calls_def)

theorem getCustomers_converts_witness:
  \<open>stat (fs_with_file ''1,Ann\<newline>2,Bob,x\<newline>'') inputFile = Inr \<lparr>isFile = True\<rparr>
   \<and> isFile \<lparr>isFile = True\<rparr>
   \<and> readFile (fs_with_file ''1,Ann\<newline>2,Bob,x\<newline>'') inputFile
       = Inr ''1,Ann\<newline>2,Bob,x\<newline>''
   \<and> writeFile (fs_with_file ''1,Ann\<newline>2,Bob,x\<newline>'') ''./customers.json''
         (JSON_stringify (customers_of_content ''1,Ann\<newline>2,Bob,x\<newline>'') 4) = None
   \<and> callback_calls (getCustomers (fs_with_file ''1,Ann\<newline>2,Bob,x\<newline>'')) =
       [(None, Some ''[\<newline>    {\<newline>        "id": "1",\<newline>        "first_name": "Ann"\<newline>    },\<newline>    {\<newline>        "id": "2",\<newline>        "first_name": "Bob"\<newline>    },\<newline>    {\<newline>        "id": ""\<newline>    }\<newline>]'')]
   \<and> callback_calls (getCustomers_okay (fs_with_file ''1,Ann\<newline>2,Bob,x\<newline>'')) =
       [(None, Some ''[\<newline>    {\<newline>        "id": "1",\<newline>        "first_name": "Ann"\<newline>    },\<newline>    {\<newline>        "id": "2",\<newline>        "first_name": "Bob"\<newline>    },\<newline>    {\<newline>        "id": ""\<newline>    }\<newline>]'')]\<close>
proof -
  let ?s = "''1,Ann\<newline>2,Bob,x\<newline>''"
  have a: "stat (fs_with_file ?s) inputFile = Inr \<lparr>isFile = True\<rparr>"
    by (simp add: fs_with_file_def)
  have b: "isFile \<lparr>isFile = True\<rparr>" by simp
  have c: "readFile (fs_with_file ?s) inputFile = Inr ?s"
    by (simp add: fs_with_file_def)
  have d: "writeFile (fs_with_file ?s) ''./customers.json''
             (JSON_stringify (customers_of_content ?s) 4) = None"
    by (simp add: fs_with_file_def)
  show ?thesis
    using a b c d getCustomers_converts [OF a b c d]
    by (simp only: json_example simp_thms)
qed

text \<open>
  C10. When \<open>fs.stat\<close> reports an error, \<open>stats\<close> is \<open>undefined\<close>, the test
  \<open>stats.isFile()\<close> throws a \<open>TypeError\<close>, and the caller's callback has not been
  called: the trace of the call is empty.
\<close>

theorem stat_error_throws:
  assumes "stat env inputFile = Inl e"
  shows "getCustomers env = ([], Some TypeError)
         \<and> callback_calls (getCustomers env) = []
         \<and> getCustomers_okay env = ([], Some TypeError)
         \<and> callback_calls (getCustomers_okay env) = []"
  using assms by (simp add: getCustomers_okay_eq getCustomers_cases callback_calls_def)

theorem stat_error_throws_witness:
  "stat fs_without_file inputFile = Inl ''ENOENT: no such file or directory, stat''
   \<and> getCustomers fs_without_file = ([], Some TypeError)
   \<and> callback_calls (getCustomers fs_without_file) = []
   \<and> getCustomers_okay fs_without_file = ([], Some TypeError)
   \<and> callback_calls (getCustomers_okay fs_without_file) = []"
proof -
  have a: "stat fs_without_file inputFile = Inl ''ENOENT: no such file or directory, stat''"
    by (simp add: fs_without_file_def)
  show ?thesis
    using a stat_error_throws [OF a] by blast
qed

end
